theory Spec2Isabelle
  imports Main "HOL-Library.Word" "HOL-Library.Char_ord" "HOL-Library.List_Lexorder"
begin

section \<open>The eCAL service client (ecal_service_client_impl.cpp)\<close>

text \<open>
  A shallow embedding of \<open>eCAL::CServiceClientImpl\<close>. The class is a \<^theory_text>\<open>record\<close>
  of its members; every member function takes the object and returns the updated object.
  What the class reads from its collaborators (the client gate, the registration provider,
  the client manager of the service singleton, the state of a client session, the protobuf
  parser, the steady clock) is a second record, \<open>world\<close>, sampled once per operation.
  What the class does to its collaborators (registration samples, user callbacks, requests
  handed to a session) is appended to a log kept beside the members. A parameter the
  source writes with a trailing underscore (\<open>key_\<close>) is written with a prime here.
\<close>

subsection \<open>Data\<close>

datatype eCallState = call_state_none | call_state_executed | call_state_failed

datatype eCAL_Client_Event =
  client_event_none | client_event_connected | client_event_disconnected | client_event_timeout

text \<open>
  Modelled from the spec: the declaration of \<open>eCAL::service::State\<close> is not among the
  sources; the spec gives a session the states CONNECTING, CONNECTED and FAILED. The code
  only compares a session's state with \<open>FAILED\<close>.
\<close>

datatype State = CONNECTING | CONNECTED | FAILED

text \<open>
  \<open>SServiceAttr\<close>, \<open>SServiceResponse\<close> and \<open>SClientEventCallbackData\<close> are declared
  in headers that are not among the sources; the records have the fields the code reads
  and writes. The version is an unsigned 32-bit integer and a port an unsigned 16-bit
  integer; the code only compares them with zero.
\<close>

record SServiceAttr =
  key :: string
  hname :: string
  sname :: string
  sid :: string
  version :: "32 word"
  tcp_port_v0 :: "16 word"
  tcp_port_v1 :: "16 word"

record SServiceResponse =
  host_name :: string
  service_name :: string
  service_id :: string
  method_name :: string
  error_msg :: string
  ret_state :: int
  call_state :: eCallState
  response :: string

record SClientEventCallbackData =
  type :: eCAL_Client_Event
  time :: int
  attr :: SServiceAttr

text \<open>
  The protobuf messages \<open>eCAL::pb::Request\<close> and \<open>eCAL::pb::Response\<close>. Their schema
  is not among the sources; the return state of a response is a signed 64-bit integer, which
  \<open>fromProtobuf\<close> narrows to an \<open>int\<close>.
\<close>

datatype ServiceHeader_eCallState =
  ServiceHeader_eCallState_none | ServiceHeader_eCallState_executed | ServiceHeader_eCallState_failed

record pb_Request =
  pb_request_mname :: string
  pb_request :: string

record pb_Response =
  pb_hname :: string
  pb_sname :: string
  pb_sid :: string
  pb_mname :: string
  pb_error :: string
  pb_state :: ServiceHeader_eCallState
  pb_ret_state :: "64 word"
  pb_response :: string

text \<open>
  A client session as the map holds it: the handle of the object the client manager
  returned, and the arguments \<open>create_client\<close> was called with. The declaration of
  \<open>create_client\<close> is not among the sources; the service library takes a protocol
  version as a \<open>std::uint8_t\<close> and a port as a \<open>std::uint16_t\<close>, as
  \<open>ServerImpl::create\<close> does.
\<close>

record ClientSession =
  cs_handle :: nat
  cs_protocol_version :: "8 word"
  cs_address :: string
  cs_port :: "16 word"

text \<open>
  What a completion is called with: \<open>response_error\<close> set (with its \<open>ToString\<close>), or
  no error and the bytes of the response.
\<close>

datatype completion = ResponseError string | ResponseBytes string

text \<open>The closure handed to \<open>async_call_service\<close>, by what it captures.\<close>

datatype closure = BlockingSlot nat | AsyncResponse string string

text \<open>
  The log of what the client did to its collaborators. A user callback is a number
  (\<open>None\<close> where a \<open>std::function\<close> is empty); \<open>EventCallback\<close> also records the
  key of the peer the event is about.
\<close>

datatype effect =
    RegisterClient string string bool
  | UnregisterClient string string bool
  | EventCallback string nat string SClientEventCallbackData
  | ResponseCallback nat SServiceResponse
  | AsyncCallService nat pb_Request closure

datatype error = bad_function_call

record ClientManager =
  is_stopped :: bool
  create_client :: "8 word \<Rightarrow> string \<Rightarrow> 16 word \<Rightarrow> nat option"

record world =
  g_clientgate :: "(string \<Rightarrow> SServiceAttr list) option"
  g_registration_provider :: bool
  get_client_manager :: "ClientManager option"
  get_state :: "nat \<Rightarrow> State"
  ParseFromString :: "string \<Rightarrow> pb_Response option"
  steady_clock_count :: string
  steady_clock_us :: int

record CServiceClientImpl =
  m_service_name :: string
  m_service_id :: string
  m_host_name :: string
  m_client_map :: "(string \<times> ClientSession) list"
  m_connected_services_map :: "(string \<times> SServiceAttr) list"
  m_response_callback :: "nat option"
  m_event_callback_map :: "eCAL_Client_Event \<Rightarrow> nat option option"
  m_created :: bool
  effects :: "effect list"

type_synonym 'a raised = "(error \<times> CServiceClientImpl) + 'a"

subsection \<open>std::map\<close>

text \<open>
  A \<open>std::map\<close> is a list of pairs in the order of its keys, which is the order the
  code iterates in. \<open>map_of\<close> is \<open>find\<close>, \<open>map_insert\<close> is \<open>m[k] = v\<close> and
  \<open>map_erase\<close> is \<open>erase\<close>. Strings are ordered as \<open>std::string\<close> orders them,
  byte by byte.
\<close>

fun map_insert :: "'k::linorder \<Rightarrow> 'v \<Rightarrow> ('k \<times> 'v) list \<Rightarrow> ('k \<times> 'v) list" where
  "map_insert k v [] = [(k, v)]"
| "map_insert k v ((k', v') # m) =
     (if k < k' then (k, v) # (k', v') # m
      else if k = k' then (k, v) # m
      else (k', v') # map_insert k v m)"

definition map_erase :: "'k \<Rightarrow> ('k \<times> 'v) list \<Rightarrow> ('k \<times> 'v) list" where
  "map_erase k m = filter (\<lambda>kv. fst kv \<noteq> k) m"

subsection \<open>Construction, Create, Destroy\<close>

definition CServiceClientImpl_ctor :: CServiceClientImpl where
  "CServiceClientImpl_ctor =
     \<lparr>m_service_name = [], m_service_id = [], m_host_name = [], m_client_map = [],
      m_connected_services_map = [], m_response_callback = None,
      m_event_callback_map = Map.empty, m_created = False, effects = []\<rparr>"

definition protocol_version_of :: "SServiceAttr \<Rightarrow> 32 word" where
  "protocol_version_of iter = (if tcp_port_v1 iter \<noteq> 0 then version iter else 0)"

definition port_to_use_of :: "SServiceAttr \<Rightarrow> 16 word" where
  "port_to_use_of iter =
     (if protocol_version_of iter = 0 then tcp_port_v0 iter else tcp_port_v1 iter)"

text \<open>
  The loop of \<open>CheckForNewServices\<close> over the descriptors of the gate. It returns
  from the function at the first new peer when there is no client manager or the manager
  is stopped; a session that \<open>create_client\<close> did not return (a null pointer) is not
  inserted. \<open>protocol_version\<close> is an unsigned 32-bit integer, as the announced version
  is; the call of \<open>create_client\<close> converts it to 8 bits, and the port is chosen
  before that, from the 32-bit value.
\<close>

fun CheckForNewServices_loop ::
  "world \<Rightarrow> SServiceAttr list \<Rightarrow> (string \<times> ClientSession) list \<Rightarrow> (string \<times> ClientSession) list"
where
  "CheckForNewServices_loop w [] cmap = cmap"
| "CheckForNewServices_loop w (iter # rest) cmap =
     (case map_of cmap (key iter) of
        Some client \<Rightarrow> CheckForNewServices_loop w rest cmap
      | None \<Rightarrow>
          (case get_client_manager w of
             None \<Rightarrow> cmap
           | Some client_manager \<Rightarrow>
               if is_stopped client_manager then cmap
               else
                 (case create_client client_manager (ucast (protocol_version_of iter))
                         (hname iter) (port_to_use_of iter) of
                    None \<Rightarrow> CheckForNewServices_loop w rest cmap
                  | Some h \<Rightarrow>
                      CheckForNewServices_loop w rest
                        (map_insert (key iter)
                           \<lparr>cs_handle = h,
                            cs_protocol_version = ucast (protocol_version_of iter),
                            cs_address = hname iter, cs_port = port_to_use_of iter\<rparr>
                           cmap))))"

text \<open>
  \<open>g_clientgate()->GetServiceAttr\<close>. The code calls it after it has found the gate
  not null.
\<close>

definition GetServiceAttr :: "world \<Rightarrow> string \<Rightarrow> SServiceAttr list" where
  "GetServiceAttr w name = (case g_clientgate w of Some f \<Rightarrow> f name | None \<Rightarrow> [])"

definition CheckForNewServices :: "world \<Rightarrow> CServiceClientImpl \<Rightarrow> CServiceClientImpl" where
  "CheckForNewServices w s =
     (if g_clientgate w = None then s
      else s\<lparr>m_client_map :=
               CheckForNewServices_loop w (GetServiceAttr w (m_service_name s)) (m_client_map s)\<rparr>)"

definition Unregister :: "world \<Rightarrow> CServiceClientImpl \<Rightarrow> CServiceClientImpl" where
  "Unregister w s =
     (if m_service_name s = [] then s
      else if g_registration_provider w
      then s\<lparr>effects := effects s @ [UnregisterClient (m_service_name s) (m_service_id s) True]\<rparr>
      else s)"

text \<open>
  The scan of \<open>Register\<close> over the client map, in the order of the keys. Calling the
  stored callback when it is an empty \<open>std::function\<close> throws
  \<open>std::bad_function_call\<close>: the scan stops there, with the entries erased so far erased.
\<close>

fun Register_scan ::
  "world \<Rightarrow> (string \<times> ClientSession) list \<Rightarrow> CServiceClientImpl \<Rightarrow> CServiceClientImpl raised"
where
  "Register_scan w [] s = Inr s"
| "Register_scan w (client # rest) s =
     (if get_state w (cs_handle (snd client)) = FAILED then
        (case map_of (m_connected_services_map s) (fst client) of
           None \<Rightarrow> Register_scan w rest s
         | Some a \<Rightarrow>
             (case m_event_callback_map s client_event_disconnected of
                None \<Rightarrow>
                  Register_scan w rest
                    (s\<lparr>m_connected_services_map :=
                         map_erase (fst client) (m_connected_services_map s)\<rparr>)
              | Some None \<Rightarrow> Inl (bad_function_call, s)
              | Some (Some cb) \<Rightarrow>
                  Register_scan w rest
                    (s\<lparr>effects := effects s @
                         [EventCallback (fst client) cb (m_service_name s)
                            \<lparr>type = client_event_disconnected, time = steady_clock_us w,
                             attr = a\<rparr>],
                       m_connected_services_map :=
                         map_erase (fst client) (m_connected_services_map s)\<rparr>)))
      else Register_scan w rest s)"

definition Register :: "world \<Rightarrow> bool \<Rightarrow> CServiceClientImpl \<Rightarrow> CServiceClientImpl raised" where
  "Register w force' s =
     (if m_service_name s = [] then Inr s
      else
        let s1 = (if g_registration_provider w
                  then s\<lparr>effects := effects s @
                          [RegisterClient (m_service_name s) (m_service_id s) force']\<rparr>
                  else s);
            s2 = CheckForNewServices w s1
        in Register_scan w (m_client_map s2) s2)"

definition Create :: "world \<Rightarrow> string \<Rightarrow> CServiceClientImpl \<Rightarrow> (bool \<times> CServiceClientImpl) raised" where
  "Create w service_name' s =
     (if m_created s then Inr (False, s)
      else
        (case Register w False (s\<lparr>m_service_name := service_name',
                                     m_service_id := steady_clock_count w\<rparr>) of
           Inl e \<Rightarrow> Inl e
         | Inr s' \<Rightarrow> Inr (True, s'\<lparr>m_created := True\<rparr>)))"

definition Destroy :: "world \<Rightarrow> CServiceClientImpl \<Rightarrow> bool \<times> CServiceClientImpl" where
  "Destroy w s =
     (if \<not> m_created s then (False, s)
      else
        let s1 = s\<lparr>m_client_map := []\<rparr>;
            s2 = s1\<lparr>m_response_callback := None\<rparr>;
            s3 = s2\<lparr>m_event_callback_map := Map.empty\<rparr>;
            s4 = Unregister w s3
        in (True, s4\<lparr>m_service_name := [], m_service_id := [], m_host_name := [],
                      m_created := False\<rparr>))"

subsection \<open>Host filter and callbacks\<close>

definition SetHostName :: "string \<Rightarrow> CServiceClientImpl \<Rightarrow> bool \<times> CServiceClientImpl" where
  "SetHostName host_name' s =
     (if host_name' = ''*'' then (True, s\<lparr>m_host_name := []\<rparr>)
      else (True, s\<lparr>m_host_name := host_name'\<rparr>))"

definition AddResponseCallback :: "nat option \<Rightarrow> CServiceClientImpl \<Rightarrow> bool \<times> CServiceClientImpl" where
  "AddResponseCallback callback' s = (True, s\<lparr>m_response_callback := callback'\<rparr>)"

definition RemResponseCallback :: "CServiceClientImpl \<Rightarrow> bool \<times> CServiceClientImpl" where
  "RemResponseCallback s = (True, s\<lparr>m_response_callback := None\<rparr>)"

definition AddEventCallback ::
  "eCAL_Client_Event \<Rightarrow> nat option \<Rightarrow> CServiceClientImpl \<Rightarrow> bool \<times> CServiceClientImpl"
where
  "AddEventCallback type' callback' s =
     (if \<not> m_created s then (False, s)
      else (True, s\<lparr>m_event_callback_map := (m_event_callback_map s)(type' \<mapsto> callback')\<rparr>))"

definition RemEventCallback :: "eCAL_Client_Event \<Rightarrow> CServiceClientImpl \<Rightarrow> bool \<times> CServiceClientImpl" where
  "RemEventCallback type' s =
     (if \<not> m_created s then (False, s)
      else (True, s\<lparr>m_event_callback_map := (m_event_callback_map s)(type' \<mapsto> None)\<rparr>))"

subsection \<open>Connection state\<close>

definition IsConnected :: "CServiceClientImpl \<Rightarrow> bool" where
  "IsConnected s = (if \<not> m_created s then False else m_connected_services_map s \<noteq> [])"

definition RegisterService ::
  "world \<Rightarrow> string \<Rightarrow> SServiceAttr \<Rightarrow> CServiceClientImpl \<Rightarrow> CServiceClientImpl raised"
where
  "RegisterService w key' service' s =
     (case map_of (m_connected_services_map s) key' of
        Some a \<Rightarrow> Inr s
      | None \<Rightarrow>
          (case m_event_callback_map s client_event_connected of
             None \<Rightarrow>
               Inr (s\<lparr>m_connected_services_map :=
                        map_insert key' service' (m_connected_services_map s)\<rparr>)
           | Some None \<Rightarrow> Inl (bad_function_call, s)
           | Some (Some cb) \<Rightarrow>
               Inr (s\<lparr>effects := effects s @
                        [EventCallback key' cb (m_service_name s)
                           \<lparr>type = client_event_connected, time = steady_clock_us w,
                            attr = service'\<rparr>],
                      m_connected_services_map :=
                        map_insert key' service' (m_connected_services_map s)\<rparr>)))"

definition RefreshRegistration :: "world \<Rightarrow> CServiceClientImpl \<Rightarrow> CServiceClientImpl raised" where
  "RefreshRegistration w s = (if \<not> m_created s then Inr s else Register w False s)"

subsection \<open>Decoding a response\<close>

text \<open>
  \<open>fromProtobuf\<close> overwrites every field of the response; the call state is left as it
  is when the header's state is neither executed nor failed. \<open>static_cast<int>\<close> keeps
  the low 32 bits of the return state, read as a signed number.
\<close>

definition fromProtobuf :: "pb_Response \<Rightarrow> SServiceResponse \<Rightarrow> SServiceResponse" where
  "fromProtobuf response_pb r =
     r\<lparr>host_name := pb_hname response_pb,
       service_name := pb_sname response_pb,
       service_id := pb_sid response_pb,
       method_name := pb_mname response_pb,
       error_msg := pb_error response_pb,
       ret_state := sint (ucast (pb_ret_state response_pb) :: 32 word),
       call_state :=
         (case pb_state response_pb of
            ServiceHeader_eCallState_executed \<Rightarrow> call_state_executed
          | ServiceHeader_eCallState_failed \<Rightarrow> call_state_failed
          | ServiceHeader_eCallState_none \<Rightarrow> call_state r),
       response := pb_response response_pb\<rparr>"

definition fromSerializedProtobuf :: "world \<Rightarrow> string \<Rightarrow> SServiceResponse \<Rightarrow> SServiceResponse" where
  "fromSerializedProtobuf w response_pb_string r =
     (case ParseFromString w response_pb_string of
        Some response_pb \<Rightarrow> fromProtobuf response_pb r
      | None \<Rightarrow>
          r\<lparr>error_msg := ''Could not parse server response'',
            ret_state := 0,
            call_state := call_state_failed,
            response := []\<rparr>)"

subsection \<open>The blocking call to all services\<close>

text \<open>
  The dispatch loop of \<open>Call\<close>: for every descriptor that passes the host filter and
  has a session in the client map, a slot is appended to \<open>responses\<close> and the session is
  called asynchronously with a closure that captures the slot's index. \<open>calls\<close> lists the
  session handles with the captured indices; its length is \<open>expected_service_call_count\<close>.
\<close>

definition timeout_slot :: "string \<Rightarrow> SServiceAttr \<Rightarrow> SServiceResponse" where
  "timeout_slot method_name' service =
     \<lparr>host_name = hname service, service_name = sname service, service_id = key service,
      method_name = method_name', error_msg = ''Timeout'', ret_state = 0,
      call_state = call_state_failed, response = []\<rparr>"

fun Call_loop ::
  "string \<Rightarrow> string \<Rightarrow> (string \<times> ClientSession) list \<Rightarrow> SServiceAttr list \<Rightarrow>
   SServiceResponse list \<Rightarrow> (nat \<times> nat) list \<Rightarrow> SServiceResponse list \<times> (nat \<times> nat) list"
where
  "Call_loop host method_name' cmap [] responses calls = (responses, calls)"
| "Call_loop host method_name' cmap (service # rest) responses calls =
     (if host = [] \<or> host = hname service then
        (case map_of cmap (key service) of
           Some client \<Rightarrow>
             Call_loop host method_name' cmap rest
               (responses @ [timeout_slot method_name' service])
               (calls @ [(cs_handle client, length responses)])
         | None \<Rightarrow> Call_loop host method_name' cmap rest responses calls)
      else Call_loop host method_name' cmap rest responses calls)"

text \<open>The closure \<open>response_callback\<close>, on the slot it captured.\<close>

definition response_callback_slot :: "world \<Rightarrow> completion \<Rightarrow> SServiceResponse \<Rightarrow> SServiceResponse" where
  "response_callback_slot w c r =
     (case c of
        ResponseError e \<Rightarrow> r\<lparr>error_msg := e, call_state := call_state_failed, ret_state := 0\<rparr>
      | ResponseBytes b \<Rightarrow> fromSerializedProtobuf w b r)"

definition response_callback ::
  "world \<Rightarrow> nat \<times> completion \<Rightarrow> SServiceResponse list \<Rightarrow> SServiceResponse list"
where
  "response_callback w ic responses =
     responses[fst ic := response_callback_slot w (snd ic) (responses ! fst ic)]"

fun any_executed :: "SServiceResponse list \<Rightarrow> bool" where
  "any_executed [] = False"
| "any_executed (r # rs) = (if call_state r = call_state_executed then True else any_executed rs)"

text \<open>
  \<open>arrivals\<close> are the closures that ran, in the order they took the mutex, before the
  calling thread took it back after its wait: each with the index it captured and what it
  was called with. A closure only exists for an index below the number of slots, and a
  session calls it once. The wait ends when every expected closure has run, or, with a
  positive timeout, when the timeout has passed; with no timeout and a closure that never
  runs the call never returns, which is the result \<open>None\<close>.
  The caller's vector is \<open>None\<close> for a null pointer. Clearing it, resizing it and
  assigning slot after slot leaves it equal to \<open>responses\<close>.
\<close>

definition dispatch :: "world \<Rightarrow> string \<Rightarrow> CServiceClientImpl \<Rightarrow> SServiceResponse list \<times> (nat \<times> nat) list" where
  "dispatch w method_name' s =
     Call_loop (m_host_name s) method_name' (m_client_map s)
       (GetServiceAttr w (m_service_name s)) [] []"

definition Call ::
  "world \<Rightarrow> (nat \<times> completion) list \<Rightarrow> string \<Rightarrow> string \<Rightarrow> int \<Rightarrow> SServiceResponse list option \<Rightarrow>
   CServiceClientImpl \<Rightarrow> (bool \<times> SServiceResponse list option \<times> CServiceClientImpl) option"
where
  "Call w arrivals method_name' request' timeout' service_response_vec s =
     (if g_clientgate w = None then Some (False, service_response_vec, s)
      else if \<not> m_created s then Some (False, service_response_vec, s)
      else if m_service_name s = [] \<or> method_name' = [] then Some (False, service_response_vec, s)
      else
        let s1 = CheckForNewServices w s;
            request_pb = \<lparr>pb_request_mname = method_name', pb_request = request'\<rparr>;
            responses = fst (dispatch w method_name' s1);
            calls = snd (dispatch w method_name' s1);
            s2 = s1\<lparr>effects := effects s1 @
                   map (\<lambda>hi. AsyncCallService (fst hi) request_pb (BlockingSlot (snd hi))) calls\<rparr>;
            finished = fold (response_callback w) arrivals responses
        in if 0 < timeout' \<or> length arrivals = length calls
           then Some (any_executed finished, map_option (\<lambda>v. finished) service_response_vec, s2)
           else None)"

subsection \<open>The asynchronous call\<close>

definition ErrorCallback :: "string \<Rightarrow> string \<Rightarrow> CServiceClientImpl \<Rightarrow> CServiceClientImpl" where
  "ErrorCallback method_name' error_message s =
     (case m_response_callback s of
        None \<Rightarrow> s
      | Some cb \<Rightarrow>
          s\<lparr>effects := effects s @
              [ResponseCallback cb
                 \<lparr>host_name = [], service_name = [], service_id = [],
                  method_name = method_name', error_msg = error_message, ret_state = 0,
                  call_state = call_state_failed, response = []\<rparr>]\<rparr>)"

fun CallAsync_loop ::
  "string \<Rightarrow> pb_Request \<Rightarrow> (string \<times> ClientSession) list \<Rightarrow> SServiceAttr list \<Rightarrow> effect list"
where
  "CallAsync_loop host request_pb cmap [] = []"
| "CallAsync_loop host request_pb cmap (service # rest) =
     (if host = [] \<or> host = hname service then
        (case map_of cmap (key service) of
           Some client \<Rightarrow>
             AsyncCallService (cs_handle client) request_pb
               (AsyncResponse (hname service) (sname service))
             # CallAsync_loop host request_pb cmap rest
         | None \<Rightarrow> CallAsync_loop host request_pb cmap rest)
      else CallAsync_loop host request_pb cmap rest)"

definition CallAsync ::
  "world \<Rightarrow> string \<Rightarrow> string \<Rightarrow> CServiceClientImpl \<Rightarrow> bool \<times> CServiceClientImpl"
where
  "CallAsync w method_name' request' s =
     (if g_clientgate w = None then (False, ErrorCallback method_name' ''Clientgate error.'' s)
      else if \<not> m_created s
      then (False, ErrorCallback method_name'
                     (''Client hasn'' @ [CHR 0x27] @ ''t been created yet.'') s)
      else if m_service_name s = [] \<or> method_name' = []
      then (False, ErrorCallback method_name' ''Invalid service or method name.'' s)
      else
        let s1 = CheckForNewServices w s;
            request_pb = \<lparr>pb_request_mname = method_name', pb_request = request'\<rparr>;
            calls = CallAsync_loop (m_host_name s1) request_pb (m_client_map s1)
                      (GetServiceAttr w (m_service_name s1))
        in (calls \<noteq> [], s1\<lparr>effects := effects s1 @ calls\<rparr>))"

subsection \<open>Sequences of operations\<close>

text \<open>
  The operations that change the object, each with the world it runs in. \<open>step\<close> gives
  the object after the operation, whether it returned or threw.
\<close>

datatype operation =
    Create_op string
  | Destroy_op
  | CheckForNewServices_op
  | RegisterService_op string SServiceAttr
  | Register_op bool
  | AddEventCallback_op eCAL_Client_Event "nat option"
  | RemEventCallback_op eCAL_Client_Event

definition object_after :: "CServiceClientImpl raised \<Rightarrow> CServiceClientImpl" where
  "object_after r = (case r of Inl es \<Rightarrow> snd es | Inr s \<Rightarrow> s)"

text \<open>The exception an operation ended with, if it threw.\<close>

definition raised_error :: "'a raised \<Rightarrow> error option" where
  "raised_error r = (case r of Inl es \<Rightarrow> Some (fst es) | Inr x \<Rightarrow> None)"

fun step :: "world \<Rightarrow> operation \<Rightarrow> CServiceClientImpl \<Rightarrow> CServiceClientImpl" where
  "step w (Create_op service_name') s =
     (case Create w service_name' s of Inl es \<Rightarrow> snd es | Inr bs \<Rightarrow> snd bs)"
| "step w Destroy_op s = snd (Destroy w s)"
| "step w CheckForNewServices_op s = CheckForNewServices w s"
| "step w (RegisterService_op key' service') s = object_after (RegisterService w key' service' s)"
| "step w (Register_op force') s = object_after (Register w force' s)"
| "step w (AddEventCallback_op type' callback') s = snd (AddEventCallback type' callback' s)"
| "step w (RemEventCallback_op type') s = snd (RemEventCallback type' s)"

fun run :: "(world \<times> operation) list \<Rightarrow> CServiceClientImpl \<Rightarrow> CServiceClientImpl" where
  "run [] s = s"
| "run (wo # rest) s = run rest (step (fst wo) (snd wo) s)"

subsection \<open>The properties the claims speak of\<close>

text \<open>
  The peers the blocking call dispatches to: the descriptors of the gate that pass the
  host filter and have a session in the client map.
\<close>

definition matching_peers :: "world \<Rightarrow> CServiceClientImpl \<Rightarrow> SServiceAttr list" where
  "matching_peers w s =
     filter (\<lambda>a. (m_host_name s = [] \<or> m_host_name s = hname a)
                 \<and> map_of (m_client_map s) (key a) \<noteq> None)
       (GetServiceAttr w (m_service_name s))"

text \<open>A completion that is a transport error, or bytes that do not parse.\<close>

definition completion_failed :: "world \<Rightarrow> completion \<Rightarrow> bool" where
  "completion_failed w c =
     (case c of ResponseError e \<Rightarrow> True | ResponseBytes b \<Rightarrow> ParseFromString w b = None)"

text \<open>
  The version rule in the words of the spec: announced version and v1 port when the v1
  port is not zero, else version 0 and the v0 port.
\<close>

definition spec_version_rule :: "SServiceAttr \<Rightarrow> ClientSession \<Rightarrow> bool" where
  "spec_version_rule a c =
     (if tcp_port_v1 a \<noteq> 0
      then unat (cs_protocol_version c) = unat (version a) \<and> cs_port c = tcp_port_v1 a
      else cs_protocol_version c = 0 \<and> cs_port c = tcp_port_v0 a)"

text \<open>
  The invariant of the spec: every key of the connected-services map has a session in the
  client map, and that session is not in the state FAILED.
\<close>

definition connected_subset_live :: "world \<Rightarrow> CServiceClientImpl \<Rightarrow> bool" where
  "connected_subset_live w s =
     list_all (\<lambda>ka. case map_of (m_client_map s) (fst ka) of
                      None \<Rightarrow> False
                    | Some c \<Rightarrow> get_state w (cs_handle c) \<noteq> FAILED)
       (m_connected_services_map s)"

text \<open>
  The events of one peer key in the log, and the automaton of alternation:
  \<open>alternation b es\<close> is \<open>None\<close> when \<open>es\<close> does not alternate, starting with
  connected when \<open>b\<close> holds and with disconnected otherwise; else it says whether a
  connected event is due next.
\<close>

fun peer_events :: "string \<Rightarrow> effect list \<Rightarrow> eCAL_Client_Event list" where
  "peer_events k [] = []"
| "peer_events k (EventCallback k' cb n d # rest) =
     (if k' = k then type d # peer_events k rest else peer_events k rest)"
| "peer_events k (x # rest) = peer_events k rest"

fun alternation :: "bool \<Rightarrow> eCAL_Client_Event list \<Rightarrow> bool option" where
  "alternation b [] = Some b"
| "alternation b (e # es) =
     (if b \<and> e = client_event_connected then alternation False es
      else if \<not> b \<and> e = client_event_disconnected then alternation True es
      else None)"

definition alternates :: "eCAL_Client_Event list \<Rightarrow> bool" where
  "alternates es = (alternation True es \<noteq> None)"

definition both_event_callbacks :: "CServiceClientImpl \<Rightarrow> bool" where
  "both_event_callbacks s =
     (case m_event_callback_map s client_event_connected of
        Some (Some c) \<Rightarrow>
          (case m_event_callback_map s client_event_disconnected of
             Some (Some d) \<Rightarrow> True
           | Some None \<Rightarrow> False
           | None \<Rightarrow> False)
      | Some None \<Rightarrow> False
      | None \<Rightarrow> False)"

fun keeps_event_callbacks :: "operation \<Rightarrow> bool" where
  "keeps_event_callbacks (RegisterService_op k a) = True"
| "keeps_event_callbacks (Register_op f) = True"
| "keeps_event_callbacks CheckForNewServices_op = True"
| "keeps_event_callbacks (Create_op n) = True"
| "keeps_event_callbacks x = False"

text \<open>
  What holds of the events of a key while both callbacks are set: the events so far
  alternate, and a connected event is due next exactly when the key is not in the
  connected-services map.
\<close>

definition event_inv :: "string \<Rightarrow> CServiceClientImpl \<Rightarrow> bool" where
  "event_inv k s =
     (both_event_callbacks s \<and>
      alternation True (peer_events k (effects s)) =
        Some (map_of (m_connected_services_map s) k = None))"

subsection \<open>A concrete scene\<close>

text \<open>
  One peer \<open>k\<close> on host \<open>h\<close>, which announces version 1 with both ports; a gate that
  knows it under the service name \<open>svc\<close>; a running client manager whose sessions get
  the handle 1.
\<close>

definition peer_k :: SServiceAttr where
  "peer_k = \<lparr>key = ''k'', hname = ''h'', sname = ''svc'', sid = ''1'', version = 1,
             tcp_port_v0 = 5000, tcp_port_v1 = 5001\<rparr>"

definition manager_1 :: ClientManager where
  "manager_1 = \<lparr>is_stopped = False, create_client = (\<lambda>v h p. Some 1)\<rparr>"

definition world_of :: "SServiceAttr list \<Rightarrow> State \<Rightarrow> world" where
  "world_of peers st =
     \<lparr>g_clientgate = Some (\<lambda>n. if n = ''svc'' then peers else []),
      g_registration_provider = True,
      get_client_manager = Some manager_1,
      get_state = (\<lambda>h. st),
      ParseFromString = (\<lambda>b. None),
      steady_clock_count = ''42'',
      steady_clock_us = 0\<rparr>"

definition no_gate :: world where
  "no_gate = (world_of [] CONNECTED)\<lparr>g_clientgate := None\<rparr>"

text \<open>The client after \<open>Create\<close> with the service name \<open>svc\<close>, before the peer is known.\<close>

definition created_client :: CServiceClientImpl where
  "created_client = run [(world_of [] CONNECTED, Create_op ''svc'')] CServiceClientImpl_ctor"

text \<open>The same peer when it announces version 0 and still has a v1 port.\<close>

definition peer_k_v0 :: SServiceAttr where
  "peer_k_v0 = peer_k\<lparr>version := 0\<rparr>"

text \<open>The same peer when it announces version 256, which does not fit in 8 bits.\<close>

definition peer_k_v256 :: SServiceAttr where
  "peer_k_v256 = peer_k\<lparr>version := 256\<rparr>"

text \<open>
  Two peers, \<open>k\<close> and \<open>k2\<close>, with a client manager that gives the session to the
  host \<open>h\<close> the handle 1 and any other session the handle 2. Both peers are connected
  and have a session in \<open>two_peers_client\<close>;
  in \<open>world_k_failed\<close> the session of \<open>k\<close> has failed and the session of \<open>k2\<close> has
  not.
\<close>

definition peer_k2 :: SServiceAttr where
  "peer_k2 = \<lparr>key = ''k2'', hname = ''h2'', sname = ''svc'', sid = ''2'', version = 1,
              tcp_port_v0 = 6000, tcp_port_v1 = 6001\<rparr>"

definition world_two :: world where
  "world_two =
     (world_of [peer_k, peer_k2] CONNECTED)
       \<lparr>get_client_manager :=
          Some \<lparr>is_stopped = False,
                create_client = (\<lambda>v h p. Some (if h = ''h'' then 1 else 2))\<rparr>\<rparr>"

definition world_k_failed :: world where
  "world_k_failed = world_two\<lparr>get_state := (\<lambda>h. if h = 1 then FAILED else CONNECTED)\<rparr>"

definition two_peers_client :: CServiceClientImpl where
  "two_peers_client =
     run [(world_two, Create_op ''svc''),
          (world_two, RegisterService_op ''k'' peer_k),
          (world_two, RegisterService_op ''k2'' peer_k2)] CServiceClientImpl_ctor"


text \<open>
  The peer is connected before the client has a session for it (\<open>pending_client\<close>), and
  after (\<open>connected_client\<close>). \<open>listening_client\<close> has a callback for the connected and
  for the disconnected event; \<open>churn\<close> connects the peer, lets its session fail, and does
  both again.
\<close>

definition pending_client :: CServiceClientImpl where
  "pending_client =
     run [(world_of [] CONNECTED, Create_op ''svc''),
          (world_of [peer_k] CONNECTED, RegisterService_op ''k'' peer_k)] CServiceClientImpl_ctor"

definition connected_client :: CServiceClientImpl where
  "connected_client =
     run [(world_of [peer_k] CONNECTED, Create_op ''svc''),
          (world_of [peer_k] CONNECTED, RegisterService_op ''k'' peer_k)] CServiceClientImpl_ctor"

definition listening_client :: CServiceClientImpl where
  "listening_client =
     run [(world_of [peer_k] CONNECTED, Create_op ''svc''),
          (world_of [peer_k] CONNECTED, AddEventCallback_op client_event_connected (Some 7)),
          (world_of [peer_k] CONNECTED, AddEventCallback_op client_event_disconnected (Some 8))]
       CServiceClientImpl_ctor"

definition churn :: "(world \<times> operation) list" where
  "churn =
     [(world_of [peer_k] CONNECTED, RegisterService_op ''k'' peer_k),
      (world_of [peer_k] FAILED, Register_op False),
      (world_of [peer_k] FAILED, RegisterService_op ''k'' peer_k),
      (world_of [peer_k] FAILED, Register_op False)]"


definition listener_3 :: CServiceClientImpl where
  "listener_3 = snd (AddResponseCallback (Some 3) created_client)"

text \<open>
  A user sets a callback for an event and removes it again: for the connected event
  before the peer registers, for the disconnected event after.
\<close>

definition unsubscribed_connected :: CServiceClientImpl where
  "unsubscribed_connected =
     run [(world_of [peer_k] CONNECTED, Create_op ''svc''),
          (world_of [peer_k] CONNECTED, AddEventCallback_op client_event_connected (Some 7)),
          (world_of [peer_k] CONNECTED, RemEventCallback_op client_event_connected)]
       CServiceClientImpl_ctor"

definition unsubscribed_disconnected :: CServiceClientImpl where
  "unsubscribed_disconnected =
     run [(world_of [peer_k] CONNECTED, Create_op ''svc''),
          (world_of [peer_k] CONNECTED, AddEventCallback_op client_event_disconnected (Some 8)),
          (world_of [peer_k] CONNECTED, RegisterService_op ''k'' peer_k),
          (world_of [peer_k] CONNECTED, RemEventCallback_op client_event_disconnected)]
       CServiceClientImpl_ctor"

section \<open>Lemmas\<close>

subsection \<open>Maps\<close>

lemma map_of_map_insert: "map_of (map_insert k v m) = (map_of m)(k \<mapsto> v)"
  by (induction m) (auto simp: fun_upd_twist)

lemma map_of_map_erase: "map_of (map_erase k m) k' = (if k' = k then None else map_of m k')"
  by (induction m) (auto simp: map_erase_def)

subsection \<open>The scene\<close>

lemma created_client_eq:
  "created_client =
     \<lparr>m_service_name = ''svc'', m_service_id = ''42'', m_host_name = [], m_client_map = [],
      m_connected_services_map = [], m_response_callback = None,
      m_event_callback_map = Map.empty, m_created = True,
      effects = [RegisterClient ''svc'' ''42'' False]\<rparr>"
  by (simp add: created_client_def CServiceClientImpl_ctor_def Create_def Register_def
      CheckForNewServices_def GetServiceAttr_def world_of_def)

lemma refresh_v0:
  "m_client_map (CheckForNewServices (world_of [peer_k_v0] CONNECTED) created_client) =
     [(''k'', \<lparr>cs_handle = 1, cs_protocol_version = 0, cs_address = ''h'', cs_port = 5000\<rparr>)]"
  by (simp add: created_client_eq CheckForNewServices_def GetServiceAttr_def world_of_def
      peer_k_v0_def peer_k_def manager_1_def protocol_version_of_def port_to_use_of_def)

lemma refresh_v1:
  "m_client_map (CheckForNewServices (world_of [peer_k] CONNECTED) created_client) =
     [(''k'', \<lparr>cs_handle = 1, cs_protocol_version = 1, cs_address = ''h'', cs_port = 5001\<rparr>)]"
  by (simp add: created_client_eq CheckForNewServices_def GetServiceAttr_def world_of_def
      peer_k_def manager_1_def protocol_version_of_def port_to_use_of_def)


lemma refresh_v256:
  "m_client_map (CheckForNewServices (world_of [peer_k_v256] CONNECTED) created_client) =
     [(''k'', \<lparr>cs_handle = 1, cs_protocol_version = 0, cs_address = ''h'', cs_port = 5001\<rparr>)]"
  by code_simp

subsection \<open>Discovery refresh\<close>

lemma CheckForNewServices_loop_keeps: "map_of cmap k = Some c \<Longrightarrow> map_of (CheckForNewServices_loop w vec cmap) k = Some c"
proof (induction vec arbitrary: cmap)
  case Nil
  then show ?case by simp
next
  case (Cons a vec)
  show ?case
  proof (cases "map_of cmap (key a)")
    case (Some x)
    then show ?thesis using Cons by simp
  next
    case None
    then have ne: "key a \<noteq> k" using Cons.prems by auto
    show ?thesis using None Cons ne
      by (auto simp: map_of_map_insert split: option.splits)
  qed
qed

lemma CheckForNewServices_loop_new:
  "map_of cmap k = None \<Longrightarrow> map_of (CheckForNewServices_loop w vec cmap) k = Some c \<Longrightarrow>
   \<exists>a\<in>set vec. key a = k \<and> c = \<lparr>cs_handle = cs_handle c,
                            cs_protocol_version = ucast (protocol_version_of a),
                            cs_address = hname a, cs_port = port_to_use_of a\<rparr>"
proof (induction vec arbitrary: cmap)
  case Nil
  then show ?case by simp
next
  case (Cons a vec)
  show ?case
  proof (cases "map_of cmap (key a)")
    case (Some x)
    then show ?thesis using Cons by auto
  next
    case None
    note absent = this
    show ?thesis
    proof (cases "get_client_manager w")
      case None
      then show ?thesis using absent Cons.prems by simp
    next
      case (Some mgr)
      note mgr = this
      show ?thesis
      proof (cases "is_stopped mgr")
        case True
        then show ?thesis using absent mgr Cons.prems by simp
      next
        case False
        note running = this
        show ?thesis
        proof (cases "create_client mgr (ucast (protocol_version_of a)) (hname a)
                        (port_to_use_of a)")
          case None
          then show ?thesis using absent mgr running Cons by auto
        next
          case (Some h)
          let ?c = "\<lparr>cs_handle = h, cs_protocol_version = ucast (protocol_version_of a),
                     cs_address = hname a, cs_port = port_to_use_of a\<rparr>"
          let ?m = "map_insert (key a) ?c cmap"
          have res: "map_of (CheckForNewServices_loop w vec ?m) k = Some c"
            using absent mgr running Some Cons.prems by simp
          show ?thesis
          proof (cases "key a = k")
            case True
            have "map_of ?m k = Some ?c" using True by (simp add: map_of_map_insert)
            then have "map_of (CheckForNewServices_loop w vec ?m) k = Some ?c"
              by (rule CheckForNewServices_loop_keeps)
            then have "c = ?c" using res by simp
            then show ?thesis using True by auto
          next
            case False
            then have "map_of ?m k = None" using Cons.prems(1) by (simp add: map_of_map_insert)
            then show ?thesis using Cons.IH res by auto
          qed
        qed
      qed
    qed
  qed
qed

lemma CheckForNewServices_loop_created:
  "map_of cmap k = None \<Longrightarrow> map_of (CheckForNewServices_loop w vec cmap) k = Some c \<Longrightarrow>
   \<exists>mgr. get_client_manager w = Some mgr \<and> \<not> is_stopped mgr \<and>
     create_client mgr (cs_protocol_version c) (cs_address c) (cs_port c) = Some (cs_handle c)"
proof (induction vec arbitrary: cmap)
  case Nil
  then show ?case by simp
next
  case (Cons a vec)
  show ?case
  proof (cases "map_of cmap (key a)")
    case (Some x)
    then show ?thesis using Cons by auto
  next
    case None
    note absent = this
    show ?thesis
    proof (cases "get_client_manager w")
      case None
      then show ?thesis using absent Cons.prems by simp
    next
      case (Some mgr)
      note mgr = this
      show ?thesis
      proof (cases "is_stopped mgr")
        case True
        then show ?thesis using absent mgr Cons.prems by simp
      next
        case False
        note running = this
        show ?thesis
        proof (cases "create_client mgr (ucast (protocol_version_of a)) (hname a)
                        (port_to_use_of a)")
          case None
          then show ?thesis using absent mgr running Cons by auto
        next
          case (Some h)
          let ?c = "\<lparr>cs_handle = h, cs_protocol_version = ucast (protocol_version_of a),
                     cs_address = hname a, cs_port = port_to_use_of a\<rparr>"
          let ?m = "map_insert (key a) ?c cmap"
          have res: "map_of (CheckForNewServices_loop w vec ?m) k = Some c"
            using absent mgr running Some Cons.prems by simp
          show ?thesis
          proof (cases "key a = k")
            case True
            have "map_of ?m k = Some ?c" using True by (simp add: map_of_map_insert)
            then have "map_of (CheckForNewServices_loop w vec ?m) k = Some ?c"
              by (rule CheckForNewServices_loop_keeps)
            then have "c = ?c" using res by simp
            then show ?thesis using mgr running Some by simp
          next
            case False
            then have "map_of ?m k = None" using Cons.prems(1) by (simp add: map_of_map_insert)
            then show ?thesis using Cons.IH res by auto
          qed
        qed
      qed
    qed
  qed
qed

lemma version_rule_eq:
  "(cs_protocol_version c = ucast (protocol_version_of a) \<and> cs_port c = port_to_use_of a) =
   ((if tcp_port_v1 a \<noteq> 0 then cs_protocol_version c = ucast (version a)
     else cs_protocol_version c = 0)
    \<and> (if tcp_port_v1 a \<noteq> 0 \<and> version a \<noteq> 0 then cs_port c = tcp_port_v1 a
       else cs_port c = tcp_port_v0 a))"
  by (auto simp: protocol_version_of_def port_to_use_of_def)


subsection \<open>The scan of Register\<close>

lemma Register_scan_client_map:
  "m_client_map (object_after (Register_scan w cm s)) = m_client_map s"
  by (induction cm arbitrary: s) (auto simp: object_after_def split: option.splits)

lemma Register_scan_keeps_absent:
  "map_of (m_connected_services_map s) k = None \<Longrightarrow>
   map_of (m_connected_services_map (object_after (Register_scan w cm s))) k = None"
  by (induction cm arbitrary: s)
     (auto simp: object_after_def map_of_map_erase split: option.splits)

lemma Register_scan_keeps_absent_Inr:
  "map_of (m_connected_services_map s) k = None \<Longrightarrow> Register_scan w cm s = Inr s' \<Longrightarrow>
   map_of (m_connected_services_map s') k = None"
  using Register_scan_keeps_absent [of s k w cm] by (simp add: object_after_def)

lemma Register_scan_erases:
  "Register_scan w cm s = Inr s' \<Longrightarrow> kc \<in> set cm \<Longrightarrow> get_state w (cs_handle (snd kc)) = FAILED \<Longrightarrow>
   map_of (m_connected_services_map s') (fst kc) = None"
proof (induction cm arbitrary: s)
  case Nil
  then show ?case by simp
next
  case (Cons client rest)
  show ?case
  proof (cases "kc = client")
    case True
    have k: "fst client = fst kc"
      and failed: "get_state w (cs_handle (snd client)) = FAILED"
      using True Cons.prems by auto
    show ?thesis
    proof (cases "map_of (m_connected_services_map s) (fst client)")
      case None
      then have "Register_scan w rest s = Inr s'"
        using Cons.prems(1) failed by simp
      moreover have "map_of (m_connected_services_map s) (fst kc) = None"
        using None k by simp
      ultimately show ?thesis by (rule Register_scan_keeps_absent_Inr [rotated])
    next
      case (Some a)
      note connected = this
      show ?thesis
      proof (cases "m_event_callback_map s client_event_disconnected")
        case None
        let ?t = "s\<lparr>m_connected_services_map :=
                     map_erase (fst client) (m_connected_services_map s)\<rparr>"
        have "Register_scan w rest ?t = Inr s'"
          using Cons.prems(1) failed connected None by simp
        moreover have "map_of (m_connected_services_map ?t) (fst kc) = None"
          using k by (simp add: map_of_map_erase)
        ultimately show ?thesis by (rule Register_scan_keeps_absent_Inr [rotated])
      next
        case (Some f)
        show ?thesis
        proof (cases f)
          case None
          then show ?thesis using Cons.prems(1) failed connected Some by simp
        next
          case (Some cb)
          let ?t = "s\<lparr>effects := effects s @
                       [EventCallback (fst client) cb (m_service_name s)
                          \<lparr>type = client_event_disconnected, time = steady_clock_us w,
                           attr = a\<rparr>],
                     m_connected_services_map :=
                       map_erase (fst client) (m_connected_services_map s)\<rparr>"
          have "Register_scan w rest ?t = Inr s'"
            using Cons.prems(1) failed connected Some
              \<open>m_event_callback_map s client_event_disconnected = Some f\<close> by simp
          moreover have "map_of (m_connected_services_map ?t) (fst kc) = None"
            using k by (simp add: map_of_map_erase)
          ultimately show ?thesis by (rule Register_scan_keeps_absent_Inr [rotated])
        qed
      qed
    qed
  next
    case False
    then have "kc \<in> set rest" using Cons.prems by simp
    then show ?thesis
      using Cons.IH Cons.prems(1,3) by (auto split: option.splits if_splits)
  qed
qed

lemma CheckForNewServices_frame:
  "m_connected_services_map (CheckForNewServices w s) = m_connected_services_map s"
  "m_event_callback_map (CheckForNewServices w s) = m_event_callback_map s"
  "effects (CheckForNewServices w s) = effects s"
  "m_service_name (CheckForNewServices w s) = m_service_name s"
  "m_host_name (CheckForNewServices w s) = m_host_name s"
  "m_created (CheckForNewServices w s) = m_created s"
  "m_response_callback (CheckForNewServices w s) = m_response_callback s"
  by (simp_all add: CheckForNewServices_def)


subsection \<open>Events\<close>

lemma peer_events_append: "peer_events k (xs @ ys) = peer_events k xs @ peer_events k ys"
  by (induction k xs rule: peer_events.induct) auto

lemma alternation_append:
  "alternation b (es @ fs) = (case alternation b es of None \<Rightarrow> None | Some b' \<Rightarrow> alternation b' fs)"
  by (induction b es rule: alternation.induct) auto

lemma both_event_callbacks_iff:
  "both_event_callbacks s =
     (\<exists>c d. m_event_callback_map s client_event_connected = Some (Some c) \<and>
            m_event_callback_map s client_event_disconnected = Some (Some d))"
  by (auto simp: both_event_callbacks_def split: option.splits)

lemma RegisterService_event_inv:
  "event_inv k s \<Longrightarrow> event_inv k (object_after (RegisterService w key' service' s))"
  by (auto simp: event_inv_def both_event_callbacks_iff RegisterService_def object_after_def
        peer_events_append alternation_append map_of_map_insert split: option.splits)

lemma Register_scan_event_inv:
  "event_inv k s \<Longrightarrow> event_inv k (object_after (Register_scan w cm s))"
proof (induction cm arbitrary: s)
  case Nil
  then show ?case by (simp add: object_after_def)
next
  case (Cons client rest)
  from Cons.prems obtain c d where
    cb: "m_event_callback_map s client_event_connected = Some (Some c)"
        "m_event_callback_map s client_event_disconnected = Some (Some d)"
    by (auto simp: event_inv_def both_event_callbacks_iff)
  show ?case
  proof (cases "get_state w (cs_handle (snd client)) = FAILED")
    case False
    then show ?thesis using Cons by simp
  next
    case True
    show ?thesis
    proof (cases "map_of (m_connected_services_map s) (fst client)")
      case None
      then show ?thesis using True Cons by simp
    next
      case (Some a)
      let ?t = "s\<lparr>effects := effects s @
                   [EventCallback (fst client) d (m_service_name s)
                      \<lparr>type = client_event_disconnected, time = steady_clock_us w, attr = a\<rparr>],
                 m_connected_services_map :=
                   map_erase (fst client) (m_connected_services_map s)\<rparr>"
      have "event_inv k ?t"
        using Cons.prems Some
        by (auto simp: event_inv_def both_event_callbacks_iff peer_events_append
              alternation_append map_of_map_erase)
      then have "event_inv k (object_after (Register_scan w rest ?t))" by (rule Cons.IH)
      then show ?thesis using True Some cb by simp
    qed
  qed
qed

lemma CheckForNewServices_event_inv:
  "event_inv k s \<Longrightarrow> event_inv k (CheckForNewServices w s)"
  by (simp add: event_inv_def both_event_callbacks_iff CheckForNewServices_frame)

lemma Register_event_inv:
  "event_inv k s \<Longrightarrow> event_inv k (object_after (Register w force' s))"
proof -
  assume inv: "event_inv k s"
  have 1: "event_inv k (s\<lparr>effects := effects s @ [RegisterClient n i f]\<rparr>)" for n i f
    using inv by (simp add: event_inv_def both_event_callbacks_iff peer_events_append)
  show ?thesis
    using inv 1
    by (auto simp: Register_def Let_def object_after_def [of "Inr s"]
          intro!: Register_scan_event_inv CheckForNewServices_event_inv)
qed

lemma Create_event_inv:
  "event_inv k s \<Longrightarrow> event_inv k (step w (Create_op n) s)"
proof -
  assume inv: "event_inv k s"
  let ?t = "s\<lparr>m_service_name := n, m_service_id := steady_clock_count w\<rparr>"
  have "event_inv k ?t" using inv by (simp add: event_inv_def both_event_callbacks_iff)
  then have r: "event_inv k (object_after (Register w False ?t))" by (rule Register_event_inv)
  show ?thesis
  proof (cases "m_created s")
    case True
    then show ?thesis using inv by (simp add: Create_def)
  next
    case False
    then show ?thesis
      using r
      by (cases "Register w False ?t")
         (auto simp: Create_def object_after_def event_inv_def both_event_callbacks_iff)
  qed
qed

lemma step_event_inv:
  "keeps_event_callbacks x \<Longrightarrow> event_inv k s \<Longrightarrow> event_inv k (step w x s)"
  using Create_event_inv [of k s w]
  by (cases x)
     (simp_all add: RegisterService_event_inv Register_event_inv CheckForNewServices_event_inv
        del: step.simps(1))

lemma run_event_inv:
  "list_all (\<lambda>wo. keeps_event_callbacks (snd wo)) ops \<Longrightarrow> event_inv k s \<Longrightarrow> event_inv k (run ops s)"
  by (induction ops arbitrary: s) (auto simp: step_event_inv simp del: step.simps)

subsection \<open>The dispatch loop\<close>

lemma Call_loop_responses:
  "fst (Call_loop host m cmap vec responses calls) =
     responses @ map (timeout_slot m) (filter (\<lambda>a. (host = [] \<or> host = hname a) \<and> map_of cmap (key a) \<noteq> None) vec)"
  by (induction vec arbitrary: responses calls) auto

lemma Call_loop_calls:
  "length (snd (Call_loop host m cmap vec responses calls)) =
     length calls + length (filter (\<lambda>a. (host = [] \<or> host = hname a) \<and> map_of cmap (key a) \<noteq> None) vec)"
  by (induction vec arbitrary: responses calls) auto

lemma dispatch_responses:
  "fst (dispatch w m s) = map (timeout_slot m) (matching_peers w s)"
  by (simp add: dispatch_def Call_loop_responses matching_peers_def)

lemma dispatch_calls:
  "length (snd (dispatch w m s)) = length (matching_peers w s)"
  by (simp add: dispatch_def Call_loop_calls matching_peers_def)

lemma length_response_callback [simp]:
  "length (response_callback w ic responses) = length responses"
  by (simp add: response_callback_def)

lemma length_fold_response_callback:
  "length (fold (response_callback w) arrivals responses) = length responses"
  by (induction arrivals arbitrary: responses) auto

lemma fold_response_callback_untouched:
  "i \<notin> fst ` set arrivals \<Longrightarrow> fold (response_callback w) arrivals responses ! i = responses ! i"
  by (induction arrivals arbitrary: responses) (auto simp: response_callback_def)


lemma Call_unfold:
  assumes "g_clientgate w \<noteq> None" and "m_created s" and "m_service_name s \<noteq> []" and "m \<noteq> []"
  shows "Call w arrivals m r t vec s =
     (if 0 < t \<or> length arrivals = length (matching_peers w (CheckForNewServices w s))
      then Some (any_executed (fold (response_callback w) arrivals
                                  (fst (dispatch w m (CheckForNewServices w s)))),
                 map_option (\<lambda>v. fold (response_callback w) arrivals
                                  (fst (dispatch w m (CheckForNewServices w s)))) vec,
                 (CheckForNewServices w s)\<lparr>effects := effects (CheckForNewServices w s) @
                   map (\<lambda>hi. AsyncCallService (fst hi)
                               \<lparr>pb_request_mname = m, pb_request = r\<rparr> (BlockingSlot (snd hi)))
                     (snd (dispatch w m (CheckForNewServices w s)))\<rparr>)
      else None)"
  using assms by (auto simp: Call_def Let_def dispatch_calls)

section \<open>The claims\<close>




text \<open>
  C2. Every slot is appended, before the session is called, with the peer's host name,
  service name and key, the method name of the call, the error message \<open>Timeout\<close>, the
  return state 0, the call state failed and an empty response. With a positive timeout the
  call returns, and the caller receives this slot for every peer whose closure has not run
  when the wait ends.
\<close>

theorem Call_timeout_slot:
  assumes "g_clientgate w \<noteq> None" and "m_created s" and "m_service_name s \<noteq> []" and "m \<noteq> []"
    and "0 < t"
    and "i < length (matching_peers w (CheckForNewServices w s))"
    and "i \<notin> fst ` set arrivals"
  shows "\<exists>res out s'.
           Call w arrivals m r t (Some v) s = Some (res, Some out, s')
           \<and> out ! i = fst (dispatch w m (CheckForNewServices w s)) ! i
           \<and> out ! i =
               \<lparr>host_name = hname (matching_peers w (CheckForNewServices w s) ! i),
                service_name = sname (matching_peers w (CheckForNewServices w s) ! i),
                service_id = key (matching_peers w (CheckForNewServices w s) ! i),
                method_name = m, error_msg = ''Timeout'', ret_state = 0,
                call_state = call_state_failed, response = []\<rparr>"
proof -
  let ?slots = "fst (dispatch w m (CheckForNewServices w s))"
  let ?out = "fold (response_callback w) arrivals ?slots"
  have returns: "\<exists>res s'. Call w arrivals m r t (Some v) s = Some (res, Some ?out, s')"
    unfolding Call_unfold [OF assms(1-4)] using assms(5) by simp
  have same: "?out ! i = ?slots ! i"
    using assms(7) by (rule fold_response_callback_untouched)
  have "?slots ! i =
          \<lparr>host_name = hname (matching_peers w (CheckForNewServices w s) ! i),
           service_name = sname (matching_peers w (CheckForNewServices w s) ! i),
           service_id = key (matching_peers w (CheckForNewServices w s) ! i),
           method_name = m, error_msg = ''Timeout'', ret_state = 0,
           call_state = call_state_failed, response = []\<rparr>"
    using assms(6) by (simp add: dispatch_responses timeout_slot_def)
  with returns same show ?thesis by auto
qed

theorem Call_timeout_slot_witness:
  "g_clientgate (world_of [peer_k] CONNECTED) \<noteq> None \<and> m_created created_client
   \<and> m_service_name created_client \<noteq> [] \<and> ''m'' \<noteq> [] \<and> (0::int) < 100
   \<and> (0::nat) < length (matching_peers (world_of [peer_k] CONNECTED)
                          (CheckForNewServices (world_of [peer_k] CONNECTED) created_client))
   \<and> (0::nat) \<notin> fst ` set ([] :: (nat \<times> completion) list)
   \<and> (\<exists>res out s'.
         Call (world_of [peer_k] CONNECTED) [] ''m'' ''r'' 100 (Some []) created_client
           = Some (res, Some out, s')
         \<and> out ! 0 = \<lparr>host_name = ''h'', service_name = ''svc'', service_id = ''k'',
                       method_name = ''m'', error_msg = ''Timeout'', ret_state = 0,
                       call_state = call_state_failed, response = []\<rparr>)"
proof -
  let ?w = "world_of [peer_k] CONNECTED"
  have h1: "g_clientgate ?w \<noteq> None" by code_simp
  have h2: "m_created created_client" by code_simp
  have h3: "m_service_name created_client \<noteq> []" by code_simp
  have h4: "''m'' \<noteq> []" by simp
  have h5: "(0::int) < 100" by simp
  have h6: "0 < length (matching_peers ?w (CheckForNewServices ?w created_client))" by code_simp
  have h7: "(0::nat) \<notin> fst ` set ([] :: (nat \<times> completion) list)" by simp
  have p: "matching_peers ?w (CheckForNewServices ?w created_client) ! 0 = peer_k" by code_simp
  have f: "hname peer_k = ''h''" "sname peer_k = ''svc''" "key peer_k = ''k''"
    by (simp_all add: peer_k_def)
  from Call_timeout_slot [OF h1 h2 h3 h4 h5 h6 h7, of "''r''" "[]"]
  have "\<exists>res out s'.
         Call ?w [] ''m'' ''r'' 100 (Some []) created_client = Some (res, Some out, s')
         \<and> out ! 0 = \<lparr>host_name = ''h'', service_name = ''svc'', service_id = ''k'',
                       method_name = ''m'', error_msg = ''Timeout'', ret_state = 0,
                       call_state = call_state_failed, response = []\<rparr>"
    unfolding p f by blast
  then show ?thesis using h1 h2 h3 h4 h5 h6 h7 by blast
qed

text \<open>
  C3. The claim says: a session for a new peer is created with the announced version
  and the v1 port whenever the v1 port is not zero, and otherwise with version 0 and the
  v0 port. The code takes the port from the protocol version it has chosen, not from the
  v1 port: a peer that announces version 0 is called with version 0 on its v0 port also
  when its v1 port is not zero.
\<close>

theorem version_rule_counterexample:
  "map_of (m_client_map (CheckForNewServices (world_of [peer_k_v0] CONNECTED) created_client)) ''k''
     = Some \<lparr>cs_handle = 1, cs_protocol_version = 0, cs_address = ''h'', cs_port = 5000\<rparr>
   \<and> \<not> spec_version_rule peer_k_v0
         \<lparr>cs_handle = 1, cs_protocol_version = 0, cs_address = ''h'', cs_port = 5000\<rparr>"
  using refresh_v0 by (simp add: spec_version_rule_def peer_k_v0_def peer_k_def)

text \<open>
  C3 as amended: every session that a discovery refresh adds under a key that had none
  is what \<open>create_client\<close> of the running client manager returned for the version, host
  and port the map records; it comes from a descriptor of the gate with that key, and has
  the descriptor's host. Its
  port is the v1 port when both the v1 port and the announced version are not zero, and the
  v0 port otherwise. Its protocol version is the announced version as the 8-bit parameter
  of \<open>create_client\<close> receives it (the low 8 bits) when the v1 port is not zero, and 0
  otherwise: an announced version 256 with a v1 port gives version 0 on the v1 port.
\<close>

theorem CheckForNewServices_version_rule:
  assumes "map_of (m_client_map s) k = None"
    and "map_of (m_client_map (CheckForNewServices w s)) k = Some c"
  shows "\<exists>a\<in>set (GetServiceAttr w (m_service_name s)). key a = k \<and> cs_address c = hname a \<and>
           (if tcp_port_v1 a \<noteq> 0
            then cs_protocol_version c = ucast (version a)
                 \<and> unat (cs_protocol_version c) = unat (version a) mod 256
            else cs_protocol_version c = 0) \<and>
           (if tcp_port_v1 a \<noteq> 0 \<and> version a \<noteq> 0
            then cs_port c = tcp_port_v1 a
            else cs_port c = tcp_port_v0 a) \<and>
           (\<exists>mgr. get_client_manager w = Some mgr \<and> \<not> is_stopped mgr \<and>
              create_client mgr (cs_protocol_version c) (cs_address c) (cs_port c)
                = Some (cs_handle c))"
proof -
  have gate: "g_clientgate w \<noteq> None"
    using assms by (auto simp: CheckForNewServices_def split: if_splits)
  then have loop: "map_of (CheckForNewServices_loop w (GetServiceAttr w (m_service_name s))
                             (m_client_map s)) k = Some c"
    using assms(2) by (cases "g_clientgate w") (auto simp: CheckForNewServices_def)
  note created = CheckForNewServices_loop_created [OF assms(1) loop]
  from CheckForNewServices_loop_new [OF assms(1) loop]
  obtain a where a: "a \<in> set (GetServiceAttr w (m_service_name s))" "key a = k"
    and c: "c = \<lparr>cs_handle = cs_handle c, cs_protocol_version = ucast (protocol_version_of a),
                 cs_address = hname a, cs_port = port_to_use_of a\<rparr>"
    by blast
  have "cs_protocol_version c = ucast (protocol_version_of a) \<and> cs_port c = port_to_use_of a"
    and addr: "cs_address c = hname a"
    by (subst c, simp)+
  moreover have "unat (ucast (version a) :: 8 word) = unat (version a) mod 256"
    by (simp add: unsigned_ucast_eq take_bit_eq_mod)
  ultimately have "key a = k \<and> cs_address c = hname a \<and>
           (if tcp_port_v1 a \<noteq> 0
            then cs_protocol_version c = ucast (version a)
                 \<and> unat (cs_protocol_version c) = unat (version a) mod 256
            else cs_protocol_version c = 0) \<and>
           (if tcp_port_v1 a \<noteq> 0 \<and> version a \<noteq> 0
            then cs_port c = tcp_port_v1 a
            else cs_port c = tcp_port_v0 a)"
    using a version_rule_eq [of c a] by auto
  then show ?thesis using a(1) created by blast
qed

theorem CheckForNewServices_version_rule_witness:
  "map_of (m_client_map created_client) ''k'' = None
   \<and> map_of (m_client_map (CheckForNewServices (world_of [peer_k] CONNECTED) created_client)) ''k''
       = Some \<lparr>cs_handle = 1, cs_protocol_version = 1, cs_address = ''h'', cs_port = 5001\<rparr>
   \<and> (\<exists>a\<in>set (GetServiceAttr (world_of [peer_k] CONNECTED) (m_service_name created_client)).
         key a = ''k'' \<and> hname a = ''h'' \<and> (1 :: 8 word) = ucast (version a)
         \<and> tcp_port_v1 a = 5001)
   \<and> map_of (m_client_map (CheckForNewServices (world_of [peer_k_v256] CONNECTED) created_client))
         ''k''
       = Some \<lparr>cs_handle = 1, cs_protocol_version = 0, cs_address = ''h'', cs_port = 5001\<rparr>
   \<and> (\<exists>a\<in>set (GetServiceAttr (world_of [peer_k_v256] CONNECTED)
                  (m_service_name created_client)).
         key a = ''k'' \<and> unat (version a) mod 256 = 0 \<and> tcp_port_v1 a = 5001)"
proof -
  let ?c = "\<lparr>cs_handle = 1, cs_protocol_version = 1, cs_address = ''h'', cs_port = 5001\<rparr>"
  let ?d = "\<lparr>cs_handle = 1, cs_protocol_version = 0, cs_address = ''h'', cs_port = 5001\<rparr>"
  have h1: "map_of (m_client_map created_client) ''k'' = None"
    by (simp add: created_client_eq)
  have h2: "map_of (m_client_map (CheckForNewServices (world_of [peer_k] CONNECTED) created_client)) ''k''
              = Some ?c"
    by (simp add: refresh_v1)
  have h3: "map_of (m_client_map (CheckForNewServices (world_of [peer_k_v256] CONNECTED)
                                    created_client)) ''k'' = Some ?d"
    by (simp add: refresh_v256)
  have z: "tcp_port_v0 a \<noteq> 5001" if "a \<in> set [peer_k_v256]" for a
    using that by (simp add: peer_k_v256_def peer_k_def)
  have g: "GetServiceAttr (world_of [peer_k_v256] CONNECTED) (m_service_name created_client)
             = [peer_k_v256]"
    by (simp add: created_client_eq GetServiceAttr_def world_of_def)
  have 1: "\<exists>a\<in>set (GetServiceAttr (world_of [peer_k] CONNECTED) (m_service_name created_client)).
         key a = ''k'' \<and> hname a = ''h'' \<and> (1 :: 8 word) = ucast (version a)
         \<and> tcp_port_v1 a = 5001"
    using CheckForNewServices_version_rule [OF h1 h2] by (auto split: if_splits)
  have 2: "\<exists>a\<in>set (GetServiceAttr (world_of [peer_k_v256] CONNECTED)
                  (m_service_name created_client)).
         key a = ''k'' \<and> unat (version a) mod 256 = 0 \<and> tcp_port_v1 a = 5001"
    using CheckForNewServices_version_rule [OF h1 h3] z unfolding g
    by (auto split: if_splits)
  show ?thesis using h1 h2 h3 1 2 by blast
qed

text \<open>
  C4. The claim says: in every state that \<open>Create\<close>, \<open>CheckForNewServices\<close>,
  \<open>RegisterService\<close>, \<open>Register\<close> and \<open>Destroy\<close> can reach, every key of the
  connected-services map has a session in the client map, and the session is not FAILED.
  \<open>RegisterService\<close> does not look at the client map: after \<open>Create\<close>, the gate
  registers the peer \<open>k\<close> before any refresh has made a session for it.
\<close>

theorem connected_subset_counterexample:
  "m_created pending_client
   \<and> map_of (m_connected_services_map pending_client) ''k'' = Some peer_k
   \<and> map_of (m_client_map pending_client) ''k'' = None
   \<and> \<not> connected_subset_live (world_of [peer_k] CONNECTED) pending_client"
  by code_simp

text \<open>
  C4 as amended: when \<open>Register\<close> returns on a client with a service name, no key of the
  connected-services map has a session in the client map that its scan found FAILED. A key
  with no session at all may be in the connected-services map.
\<close>

theorem Register_leaves_no_failed_connected:
  assumes "m_service_name s \<noteq> []"
    and "Register w force' s = Inr s'"
    and "map_of (m_connected_services_map s') k = Some a"
    and "map_of (m_client_map s') k = Some c"
  shows "get_state w (cs_handle c) \<noteq> FAILED"
proof
  assume failed: "get_state w (cs_handle c) = FAILED"
  obtain s2 where scan: "Register_scan w (m_client_map s2) s2 = Inr s'"
    using assms(1,2) by (auto simp: Register_def Let_def)
  have "m_client_map s' = m_client_map s2"
    using Register_scan_client_map [of w "m_client_map s2" s2] scan by (simp add: object_after_def)
  then have "(k, c) \<in> set (m_client_map s2)"
    using assms(4) by (simp add: map_of_SomeD)
  from Register_scan_erases [OF scan this] failed
  have "map_of (m_connected_services_map s') k = None" by simp
  then show False using assms(3) by simp
qed

theorem Register_leaves_no_failed_connected_witness:
  "m_service_name two_peers_client \<noteq> []
   \<and> map_of (m_connected_services_map two_peers_client) ''k'' = Some peer_k
   \<and> map_of (m_client_map two_peers_client) ''k''
       = Some \<lparr>cs_handle = 1, cs_protocol_version = 1, cs_address = ''h'', cs_port = 5001\<rparr>
   \<and> get_state world_k_failed 1 = FAILED
   \<and> Register world_k_failed False two_peers_client
       = Inr (object_after (Register world_k_failed False two_peers_client))
   \<and> map_of (m_connected_services_map
         (object_after (Register world_k_failed False two_peers_client))) ''k'' = None
   \<and> map_of (m_connected_services_map
         (object_after (Register world_k_failed False two_peers_client))) ''k2'' = Some peer_k2
   \<and> map_of (m_client_map
         (object_after (Register world_k_failed False two_peers_client))) ''k2''
       = Some \<lparr>cs_handle = 2, cs_protocol_version = 1, cs_address = ''h2'', cs_port = 6001\<rparr>
   \<and> get_state world_k_failed 2 \<noteq> FAILED"
proof -
  let ?r = "Register world_k_failed False two_peers_client"
  let ?c = "\<lparr>cs_handle = 2, cs_protocol_version = 1, cs_address = ''h2'', cs_port = 6001\<rparr>"
  have h1: "m_service_name two_peers_client \<noteq> []" by code_simp
  have before: "map_of (m_connected_services_map two_peers_client) ''k'' = Some peer_k
    \<and> map_of (m_client_map two_peers_client) ''k''
        = Some \<lparr>cs_handle = 1, cs_protocol_version = 1, cs_address = ''h'', cs_port = 5001\<rparr>
    \<and> get_state world_k_failed 1 = FAILED"
    by code_simp
  have "\<not> isl ?r" by code_simp
  then have h2: "?r = Inr (object_after ?r)"
    by (cases ?r) (simp_all add: object_after_def)
  have erased: "map_of (m_connected_services_map (object_after ?r)) ''k'' = None"
    by code_simp
  have h3: "map_of (m_connected_services_map (object_after ?r)) ''k2'' = Some peer_k2"
    by code_simp
  have h4: "map_of (m_client_map (object_after ?r)) ''k2'' = Some ?c"
    by code_simp
  from Register_leaves_no_failed_connected [OF h1 h2 h3 h4]
  have "get_state world_k_failed (cs_handle ?c) \<noteq> FAILED" .
  then show ?thesis using h1 before h2 erased h3 h4 by simp
qed

text \<open>
  C5. \<open>Destroy\<close> clears the client map, the response callback and the event callbacks,
  and returns true, but not the connected-services map: the peer registered before
  \<open>Destroy\<close> is still connected after it, and after a new \<open>Create\<close> for a service
  with no peer \<open>IsConnected\<close> answers true.
\<close>

theorem Destroy_keeps_connected_services:
  "fst (Destroy (world_of [peer_k] CONNECTED) connected_client)
   \<and> m_client_map (snd (Destroy (world_of [peer_k] CONNECTED) connected_client)) = []
   \<and> m_connected_services_map (snd (Destroy (world_of [peer_k] CONNECTED) connected_client))
       = [(''k'', peer_k)]
   \<and> IsConnected (run [(world_of [peer_k] CONNECTED, Destroy_op),
                        (world_of [] CONNECTED, Create_op ''other'')] connected_client)"
  by code_simp

text \<open>
  C6. The claim says: for every peer key the connected and disconnected events alternate,
  starting with connected, and connected fires at most once for a key and a session. An
  event is only emitted when a callback is set for it, and a FAILED session stays in the
  client map: with a callback for connected alone, the peer \<open>k\<close> connects, its session
  fails, \<open>Register\<close> erases the key without an event, and the next \<open>RegisterService\<close>
  emits connected again, for the same session.
\<close>

theorem events_alternate_counterexample:
  "peer_events ''k'' (effects (run
     [(world_of [peer_k] CONNECTED, Create_op ''svc''),
      (world_of [peer_k] CONNECTED, AddEventCallback_op client_event_connected (Some 7)),
      (world_of [peer_k] CONNECTED, RegisterService_op ''k'' peer_k),
      (world_of [peer_k] FAILED, Register_op False),
      (world_of [peer_k] FAILED, RegisterService_op ''k'' peer_k)] CServiceClientImpl_ctor))
     = [client_event_connected, client_event_connected]
   \<and> \<not> alternates [client_event_connected, client_event_connected]"
  by code_simp

text \<open>
  C6 as amended: from a state with a callback set for connected and for disconnected, an
  empty connected-services map and no event for the key yet, and through any sequence of
  \<open>Create\<close>, \<open>CheckForNewServices\<close>, \<open>RegisterService\<close> and \<open>Register\<close> in any
  worlds, the events of the key alternate, starting with connected: every disconnected
  event follows a connected event of that key, and no two events of one kind follow each
  other.
\<close>

theorem events_alternate:
  assumes "both_event_callbacks s"
    and "m_connected_services_map s = []"
    and "peer_events k (effects s) = []"
    and "list_all (\<lambda>wo. keeps_event_callbacks (snd wo)) ops"
  shows "alternates (peer_events k (effects (run ops s)))"
proof -
  have "event_inv k s" using assms(1-3) by (simp add: event_inv_def)
  then have "event_inv k (run ops s)" using assms(4) by (simp add: run_event_inv)
  then show ?thesis by (simp add: event_inv_def alternates_def)
qed

theorem events_alternate_witness:
  "both_event_callbacks listening_client
   \<and> m_connected_services_map listening_client = []
   \<and> peer_events ''k'' (effects listening_client) = []
   \<and> list_all (\<lambda>wo. keeps_event_callbacks (snd wo)) churn
   \<and> peer_events ''k'' (effects (run churn listening_client))
       = [client_event_connected, client_event_disconnected,
          client_event_connected, client_event_disconnected]
   \<and> alternates (peer_events ''k'' (effects (run churn listening_client)))"
proof -
  have h1: "both_event_callbacks listening_client" by code_simp
  have h2: "m_connected_services_map listening_client = []" by code_simp
  have h3: "peer_events ''k'' (effects listening_client) = []" by code_simp
  have h4: "list_all (\<lambda>wo. keeps_event_callbacks (snd wo)) churn" by code_simp
  have h5: "peer_events ''k'' (effects (run churn listening_client))
       = [client_event_connected, client_event_disconnected,
          client_event_connected, client_event_disconnected]" by code_simp
  from events_alternate [OF h1 h2 h3 h4]
  have "alternates (peer_events ''k'' (effects (run churn listening_client)))" .
  then show ?thesis using h1 h2 h3 h4 h5 by blast
qed

text \<open>
  C7. A blocking call that returns with an output vector has copied as many slots as it
  has called sessions: one for every descriptor that passes the host filter and has a
  session in the client map at the dispatch loop, whatever closures ran before the wait
  ended.
\<close>

theorem Call_slot_count:
  assumes "g_clientgate w \<noteq> None" and "m_created s" and "m_service_name s \<noteq> []" and "m \<noteq> []"
    and "Call w arrivals m r t (Some v) s = Some (res, out, s')"
  shows "map_option length out = Some (length (matching_peers w (CheckForNewServices w s)))
         \<and> effects s' = effects s @
             map (\<lambda>hi. AsyncCallService (fst hi) \<lparr>pb_request_mname = m, pb_request = r\<rparr>
                         (BlockingSlot (snd hi)))
               (snd (dispatch w m (CheckForNewServices w s)))
         \<and> length (snd (dispatch w m (CheckForNewServices w s)))
             = length (matching_peers w (CheckForNewServices w s))"
  using assms(5) unfolding Call_unfold [OF assms(1-4)]
  by (auto split: if_splits
        simp: length_fold_response_callback dispatch_responses dispatch_calls CheckForNewServices_frame)

theorem Call_slot_count_witness:
  "g_clientgate (world_of [peer_k] CONNECTED) \<noteq> None \<and> m_created created_client
   \<and> m_service_name created_client \<noteq> [] \<and> ''m'' \<noteq> []
   \<and> map_option (\<lambda>x. map_option length (fst (snd x)))
        (Call (world_of [peer_k] CONNECTED) [] ''m'' ''r'' 100 (Some []) created_client)
       = Some (Some (length (matching_peers (world_of [peer_k] CONNECTED)
                              (CheckForNewServices (world_of [peer_k] CONNECTED) created_client))))
   \<and> length (matching_peers (world_of [peer_k] CONNECTED)
               (CheckForNewServices (world_of [peer_k] CONNECTED) created_client)) = 1"
proof -
  let ?w = "world_of [peer_k] CONNECTED"
  have h1: "g_clientgate ?w \<noteq> None" by code_simp
  have h2: "m_created created_client" by code_simp
  have h3: "m_service_name created_client \<noteq> []" by code_simp
  have h4: "''m'' \<noteq> []" by simp
  have "Call ?w [] ''m'' ''r'' 100 (Some []) created_client \<noteq> None" by code_simp
  then obtain res out s' where c: "Call ?w [] ''m'' ''r'' 100 (Some []) created_client
                                     = Some (res, out, s')"
    by (cases "Call ?w [] ''m'' ''r'' 100 (Some []) created_client") auto
  from Call_slot_count [OF h1 h2 h3 h4 c]
  have "map_option length out
          = Some (length (matching_peers ?w (CheckForNewServices ?w created_client)))"
    by simp
  moreover have "length (matching_peers ?w (CheckForNewServices ?w created_client)) = 1"
    by code_simp
  ultimately show ?thesis using h1 h2 h3 h4 c by simp
qed

text \<open>
  C8. \<open>CallAsync\<close> without a client gate, on a client that is not created, or with an
  empty service or method name returns false; it calls the response callback, when one is
  set, once with the call state failed, the return state 0, the method name, an empty
  response and the error message of the failed check, and does nothing else.
\<close>

theorem CallAsync_error:
  assumes "g_clientgate w = None \<or> \<not> m_created s \<or> m_service_name s = [] \<or> m = []"
  shows "fst (CallAsync w m r s) = False
         \<and> snd (CallAsync w m r s) =
             (case m_response_callback s of
                None \<Rightarrow> s
              | Some cb \<Rightarrow>
                  s\<lparr>effects := effects s @
                      [ResponseCallback cb
                         \<lparr>host_name = [], service_name = [], service_id = [], method_name = m,
                          error_msg =
                            (if g_clientgate w = None then ''Clientgate error.''
                             else if \<not> m_created s
                             then ''Client hasn'' @ [CHR 0x27] @ ''t been created yet.''
                             else ''Invalid service or method name.''),
                          ret_state = 0, call_state = call_state_failed, response = []\<rparr>]\<rparr>)"
  using assms by (auto simp: CallAsync_def ErrorCallback_def split: option.splits)

theorem CallAsync_error_witness:
  "g_clientgate no_gate = None
   \<and> fst (CallAsync no_gate ''m'' ''r'' listener_3) = False
   \<and> effects (snd (CallAsync no_gate ''m'' ''r'' listener_3)) =
       effects listener_3 @
         [ResponseCallback 3
            \<lparr>host_name = [], service_name = [], service_id = [], method_name = ''m'',
             error_msg = ''Clientgate error.'', ret_state = 0,
             call_state = call_state_failed, response = []\<rparr>]"
proof -
  have h: "g_clientgate no_gate = None" by code_simp
  have cb: "m_response_callback listener_3 = Some 3" by code_simp
  from h have "g_clientgate no_gate = None \<or> \<not> m_created listener_3
                 \<or> m_service_name listener_3 = [] \<or> ''m'' = []"
    by simp
  from CallAsync_error [OF this, of "''r''"] show ?thesis
    using h cb by simp
qed

text \<open>
  C9. A closure of the blocking call that is called with a transport error, or with bytes
  that do not parse, leaves the host name, the service name, the service id and the method
  name of its slot as they were; the slot ends with the return state 0 and the call state
  failed.
\<close>

theorem response_callback_frame:
  assumes "completion_failed w c" and "i < length responses"
  shows "host_name (response_callback w (i, c) responses ! i) = host_name (responses ! i)
         \<and> service_name (response_callback w (i, c) responses ! i) = service_name (responses ! i)
         \<and> service_id (response_callback w (i, c) responses ! i) = service_id (responses ! i)
         \<and> method_name (response_callback w (i, c) responses ! i) = method_name (responses ! i)
         \<and> ret_state (response_callback w (i, c) responses ! i) = 0
         \<and> call_state (response_callback w (i, c) responses ! i) = call_state_failed"
  using assms
  by (cases c)
     (simp_all add: completion_failed_def response_callback_def response_callback_slot_def
        fromSerializedProtobuf_def)

theorem response_callback_frame_witness:
  "completion_failed (world_of [] CONNECTED) (ResponseBytes ''garbage'')
   \<and> (0::nat) < length [timeout_slot ''m'' peer_k]
   \<and> response_callback (world_of [] CONNECTED) (0, ResponseBytes ''garbage'')
        [timeout_slot ''m'' peer_k] ! 0
       = \<lparr>host_name = ''h'', service_name = ''svc'', service_id = ''k'', method_name = ''m'',
          error_msg = ''Could not parse server response'', ret_state = 0,
          call_state = call_state_failed, response = []\<rparr>
   \<and> host_name (response_callback (world_of [] CONNECTED) (0, ResponseBytes ''garbage'')
                   [timeout_slot ''m'' peer_k] ! 0)
       = host_name ([timeout_slot ''m'' peer_k] ! 0)"
proof -
  have h1: "completion_failed (world_of [] CONNECTED) (ResponseBytes ''garbage'')" by code_simp
  have h2: "(0::nat) < length [timeout_slot ''m'' peer_k]" by simp
  have h3: "response_callback (world_of [] CONNECTED) (0, ResponseBytes ''garbage'')
        [timeout_slot ''m'' peer_k] ! 0
       = \<lparr>host_name = ''h'', service_name = ''svc'', service_id = ''k'', method_name = ''m'',
          error_msg = ''Could not parse server response'', ret_state = 0,
          call_state = call_state_failed, response = []\<rparr>" by code_simp
  from response_callback_frame [OF h1 h2] show ?thesis using h1 h2 h3 by blast
qed

text \<open>
  C10. \<open>RemEventCallback\<close> stores an empty function under the event; the next
  connect transition in \<open>RegisterService\<close>, and the next disconnect transition in
  \<open>Register\<close>, find the entry and call it, which throws \<open>std::bad_function_call\<close>.
  \<open>RegisterService\<close> throws before it has added the peer to the connected-services
  map.
\<close>

theorem removed_event_callback_throws:
  "raised_error (RegisterService (world_of [peer_k] CONNECTED) ''k'' peer_k unsubscribed_connected)
     = Some bad_function_call
   \<and> map_of (m_connected_services_map
         (object_after (RegisterService (world_of [peer_k] CONNECTED) ''k'' peer_k
                          unsubscribed_connected))) ''k'' = None
   \<and> raised_error (Register (world_of [peer_k] FAILED) False unsubscribed_disconnected)
     = Some bad_function_call"
  by code_simp

end
